theory Spec2Isabelle
  imports Main "HOL-Library.Word"
begin

unbundle bit_operations_syntax

section \<open>Data model\<close>

text \<open>
  The Ledger signer of starknet.py (\<^verbatim>\<open>starknet_py/net/signer/ledger_signer.py\<close>).
  Python integers are \<^typ>\<open>int\<close>; a \<^verbatim>\<open>bytes\<close> object is a list of 8-bit words;
  a \<^verbatim>\<open>str\<close> is a \<^typ>\<open>string\<close>, one \<^typ>\<open>char\<close> per code point, which covers
  the code points 0 to 255. Every \<^verbatim>\<open>raise\<close> of the source, and every exception of a
  builtin or library call that the source lets through, is a value of \<open>error\<close>.
\<close>

type_synonym byte = "8 word"
type_synonym bytes = "byte list"

datatype error =
    EmptyDerivationPath
      \<comment> \<open>\<^verbatim>\<open>ValueError("Empty derivation path")\<close>\<close>
  | InvalidLiteral string
      \<comment> \<open>\<^verbatim>\<open>ValueError\<close> of \<^verbatim>\<open>int(str)\<close>: invalid literal for int() with base 10\<close>
  | InvalidKeyIndex int
      \<comment> \<open>\<^verbatim>\<open>ValueError\<close> of \<^verbatim>\<open>Bip32KeyIndex(idx)\<close>: invalid key index\<close>
  | NotLevelLong nat
      \<comment> \<open>\<^verbatim>\<open>ValueError(f"Derivation path is not {EIP_2645_PATH_LENGTH}-level long")\<close>\<close>
  | NotPrefixed
      \<comment> \<open>\<^verbatim>\<open>ValueError("Derivation path is not prefixed with m/2645.")\<close>\<close>
  | OverflowError
      \<comment> \<open>\<^verbatim>\<open>OverflowError\<close> of \<^verbatim>\<open>int.to_bytes\<close>\<close>
  | UnexpectedResponseLength nat nat
      \<comment> \<open>\<^verbatim>\<open>ValueError(f"Unexpected response length (expected: {..}, actual: {..}")\<close>\<close>
  | DeviceCommunicationError nat
      \<comment> \<open>an exception of the transport (\<^verbatim>\<open>LedgerClient\<close>), with its status\<close>

subsection \<open>Constants of \<^verbatim>\<open>starknet_py.constants\<close>\<close>

definition EIP_2645_PATH_LENGTH :: nat where
  \<comment> \<open>Modelled from the spec: \<^verbatim>\<open>starknet_py/constants.py\<close> is missing; a derivation
      path has exactly 6 elements.\<close>
  "EIP_2645_PATH_LENGTH = 6"

definition EIP_2645_PURPOSE :: int where
  \<comment> \<open>Modelled from the spec: \<^verbatim>\<open>starknet_py/constants.py\<close> is missing; the purpose
      is the hardened encoding of 2645, that is \<^verbatim>\<open>0x80000A55\<close>.\<close>
  "EIP_2645_PURPOSE = 0x80000A55"

definition SIGNATURE_LENGTH :: nat where
  \<comment> \<open>Modelled from the spec: \<^verbatim>\<open>starknet_py/constants.py\<close> is missing; a signature
      response has 65 bytes and its tag byte is 64.\<close>
  "SIGNATURE_LENGTH = 64"

text \<open>
  \<^verbatim>\<open>PUBLIC_KEY_LENGTH\<close> is imported from the same missing module and the specification
  gives no value for it: the operations that read it take it as a parameter.
\<close>

section \<open>Python builtins used by the signer\<close>

subsection \<open>Strings\<close>

definition py_lstrip :: "string \<Rightarrow> string \<Rightarrow> string" where
  \<comment> \<open>\<^verbatim>\<open>s.lstrip(chars)\<close>: drops every leading character that occurs in \<open>chars\<close>\<close>
  "py_lstrip s chars = dropWhile (\<lambda>c. c \<in> set chars) s"

fun split_from :: "char \<Rightarrow> string \<Rightarrow> string \<Rightarrow> string list" where
  "split_from sep cur [] = [cur]"
| "split_from sep cur (c # cs) =
     (if c = sep then cur # split_from sep [] cs else split_from sep (cur @ [c]) cs)"

definition py_split :: "string \<Rightarrow> char \<Rightarrow> string list" where
  \<comment> \<open>\<^verbatim>\<open>s.split(sep)\<close> for a separator of one character: empty parts are kept, and
      the empty string gives one empty part\<close>
  "py_split s sep = split_from sep [] s"

definition py_endswith :: "string \<Rightarrow> char \<Rightarrow> bool" where
  \<comment> \<open>\<^verbatim>\<open>s.endswith(c)\<close> for a suffix of one character\<close>
  "py_endswith s c = (case rev s of [] \<Rightarrow> False | x # _ \<Rightarrow> x = c)"

subsection \<open>\<^verbatim>\<open>int(str)\<close>\<close>

text \<open>
  \<^verbatim>\<open>int(s)\<close> in base 10: white space is stripped on both sides, one sign is allowed,
  then come decimal digits, where one underscore may stand between two digits. Anything
  else raises \<^verbatim>\<open>ValueError\<close>. Among the code points 0 to 255 the decimal digits are
  \<^verbatim>\<open>0\<close> to \<^verbatim>\<open>9\<close>, and the white space of \<^verbatim>\<open>int\<close> is tab, line feed, vertical tab,
  form feed, carriage return, space, and the code points \<^verbatim>\<open>0x85\<close> and \<^verbatim>\<open>0xA0\<close>.
  The interpreter's limit on the number of digits of a literal is a configuration of the
  interpreter and is not part of the model.
\<close>

definition py_isspace :: "char \<Rightarrow> bool" where
  "py_isspace c = (c \<in> set [CHR 0x09, CHR 0x0A, CHR 0x0B, CHR 0x0C, CHR 0x0D, CHR 0x20,
                             CHR 0x85, CHR 0xA0])"

definition is_digit :: "char \<Rightarrow> bool" where
  "is_digit c = (48 \<le> (of_char c :: nat) \<and> (of_char c :: nat) \<le> 57)"

definition digit_val :: "char \<Rightarrow> int" where
  "digit_val c = int (of_char c) - 48"

fun digits_value :: "int \<Rightarrow> string \<Rightarrow> int option" where
  \<comment> \<open>the rest of a literal after a digit; \<open>acc\<close> is the value read so far\<close>
  "digits_value acc [] = Some acc"
| "digits_value acc (c # cs) =
     (if is_digit c then digits_value (acc * 10 + digit_val c) cs
      else if c = CHR ''_'' then
        (case cs of
           [] \<Rightarrow> None
         | d # ds \<Rightarrow> if is_digit d then digits_value (acc * 10 + digit_val d) ds else None)
      else None)"

definition py_strip_space :: "string \<Rightarrow> string" where
  "py_strip_space s = rev (dropWhile py_isspace (rev (dropWhile py_isspace s)))"

definition py_int :: "string \<Rightarrow> error + int" where
  "py_int s =
     (let t = py_strip_space s;
          neg = (case t of [] \<Rightarrow> False | c # _ \<Rightarrow> c = CHR ''-'');
          u = (case t of [] \<Rightarrow> [] | c # cs \<Rightarrow> if c = CHR ''-'' \<or> c = CHR ''+'' then cs else t)
      in case u of
           [] \<Rightarrow> Inl (InvalidLiteral s)
         | c # cs \<Rightarrow>
             if is_digit c then
               (case digits_value (digit_val c) cs of
                  None \<Rightarrow> Inl (InvalidLiteral s)
                | Some n \<Rightarrow> Inr (if neg then - n else n))
             else Inl (InvalidLiteral s))"

subsection \<open>\<^verbatim>\<open>int.to_bytes\<close> and \<^verbatim>\<open>int.from_bytes\<close>, big-endian and unsigned\<close>

fun be_bytes :: "nat \<Rightarrow> int \<Rightarrow> bytes" where
  \<comment> \<open>the \<open>len\<close> low base-256 digits of \<open>n\<close>, the most significant one first\<close>
  "be_bytes 0 n = []"
| "be_bytes (Suc len) n = be_bytes len (n div 256) @ [word_of_int n]"

definition to_bytes :: "int \<Rightarrow> nat \<Rightarrow> error + bytes" where
  \<comment> \<open>\<^verbatim>\<open>n.to_bytes(length, byteorder="big")\<close>: a negative \<open>n\<close>, and an \<open>n\<close> that does
      not fit in \<open>length\<close> bytes, raise \<^verbatim>\<open>OverflowError\<close>\<close>
  "to_bytes n len =
     (if n < 0 then Inl OverflowError
      else if 256 ^ len \<le> n then Inl OverflowError
      else Inr (be_bytes len n))"

definition from_bytes :: "bytes \<Rightarrow> int" where
  \<comment> \<open>\<^verbatim>\<open>int.from_bytes(bs, byteorder="big")\<close>\<close>
  "from_bytes bs = foldl (\<lambda>acc b. acc * 256 + uint b) 0 bs"

definition py_slice :: "'a list \<Rightarrow> nat \<Rightarrow> nat \<Rightarrow> 'a list" where
  \<comment> \<open>\<^verbatim>\<open>xs[i:j]\<close> for \<open>0 \<le> i \<le> j\<close>: a slice never raises, it is cut at the end of
      \<open>xs\<close>\<close>
  "py_slice xs i j = take (j - i) (drop i xs)"

section \<open>The library \<^verbatim>\<open>bip_utils\<close>\<close>

text \<open>
  \<^verbatim>\<open>Bip32KeyIndex\<close> holds an index between 0 and \<^verbatim>\<open>2**32 - 1\<close>, which its constructor
  checks: it is a 32-bit word. \<^verbatim>\<open>Bip32Utils.HardenIndex\<close> sets bit 31 of a Python
  integer, \<^verbatim>\<open>Bip32KeyIndex.ToBytes\<close> gives the 4 bytes of the index, big-endian, and a
  \<^verbatim>\<open>Bip32Path\<close> is the sequence of its elements.
\<close>

type_synonym Bip32KeyIndex = "32 word"
type_synonym Bip32Path = "Bip32KeyIndex list"

definition KEY_INDEX_MAX_VAL :: int where
  "KEY_INDEX_MAX_VAL = 2 ^ 32 - 1"

definition HardenIndex :: "int \<Rightarrow> int" where
  "HardenIndex index = index OR push_bit 31 1"

definition Bip32KeyIndex :: "int \<Rightarrow> error + Bip32KeyIndex" where
  "Bip32KeyIndex idx =
     (if idx < 0 \<or> KEY_INDEX_MAX_VAL < idx then Inl (InvalidKeyIndex idx)
      else Inr (word_of_int idx))"

definition ToBytes :: "Bip32KeyIndex \<Rightarrow> bytes" where
  "ToBytes index = be_bytes 4 (uint index)"

section \<open>The derivation path codec\<close>

definition parse_part :: "string \<Rightarrow> error + Bip32KeyIndex" where
  \<comment> \<open>the body of the loop of \<^verbatim>\<open>_parse_derivation_path_str\<close>\<close>
  "parse_part part =
     (if py_endswith part (CHR 0x27) then
        (case py_int (butlast part) of
           Inl e \<Rightarrow> Inl e
         | Inr n \<Rightarrow> Bip32KeyIndex (HardenIndex n))
      else
        (case py_int part of
           Inl e \<Rightarrow> Inl e
         | Inr n \<Rightarrow> Bip32KeyIndex n))"

fun parse_parts :: "string list \<Rightarrow> error + Bip32KeyIndex list" where
  \<comment> \<open>the loop over \<^verbatim>\<open>path_parts\<close>: the first part that fails raises\<close>
  "parse_parts [] = Inr []"
| "parse_parts (part # parts) =
     (case parse_part part of
        Inl e \<Rightarrow> Inl e
      | Inr index \<Rightarrow>
          (case parse_parts parts of
             Inl e \<Rightarrow> Inl e
           | Inr path_elements \<Rightarrow> Inr (index # path_elements)))"

definition path_parts :: "string \<Rightarrow> string list" where
  \<comment> \<open>\<^verbatim>\<open>derivation_path_str.lstrip("m/").split("/")\<close>\<close>
  "path_parts derivation_path_str = py_split (py_lstrip derivation_path_str ''m/'') (CHR ''/'')"

definition check_path_elements :: "Bip32KeyIndex list \<Rightarrow> error + Bip32Path" where
  \<comment> \<open>the two checks after the loop\<close>
  "check_path_elements path_elements =
     (if length path_elements \<noteq> EIP_2645_PATH_LENGTH then
        Inl (NotLevelLong EIP_2645_PATH_LENGTH)
      else if uint (path_elements ! 0) \<noteq> EIP_2645_PURPOSE then Inl NotPrefixed
      else Inr path_elements)"

definition parse_nonempty :: "string \<Rightarrow> error + Bip32Path" where
  \<comment> \<open>\<^verbatim>\<open>_parse_derivation_path_str\<close> after its first check\<close>
  "parse_nonempty derivation_path_str =
     (case parse_parts (path_parts derivation_path_str) of
        Inl e \<Rightarrow> Inl e
      | Inr path_elements \<Rightarrow> check_path_elements path_elements)"

definition parse_derivation_path_str :: "string \<Rightarrow> error + Bip32Path" where
  \<comment> \<open>\<^verbatim>\<open>_parse_derivation_path_str\<close>\<close>
  "parse_derivation_path_str derivation_path_str =
     (if derivation_path_str = [] then Inl EmptyDerivationPath
      else parse_nonempty derivation_path_str)"

definition derivation_path_to_bytes :: "Bip32Path \<Rightarrow> bytes" where
  \<comment> \<open>\<^verbatim>\<open>_derivation_path_to_bytes\<close>\<close>
  "derivation_path_to_bytes derivation_path = concat (map ToBytes derivation_path)"

section \<open>The device transport\<close>

text \<open>
  One command of the device protocol, as \<^verbatim>\<open>LedgerClient.apdu_exchange\<close> takes it: the
  instruction, the two parameter bytes and the payload. The class byte is fixed when the
  client is created.
\<close>

record apdu =
  ins :: nat
  p1 :: nat
  p2 :: nat
  data :: bytes

text \<open>
  The transport is an external collaborator: a function from the state of the device and
  a command to a response, or to a failure with a status, and the next state of the
  device. The client keeps the device and, as a ghost field, the commands handed to the
  transport so far, in order.
\<close>

type_synonym 'd transport = "'d \<Rightarrow> apdu \<Rightarrow> (nat + bytes) \<times> 'd"

record 'd LedgerClient =
  device :: 'd
  sent :: "apdu list"

definition apdu_exchange ::
  "'d transport \<Rightarrow> 'd LedgerClient \<Rightarrow> apdu \<Rightarrow> (error + bytes) \<times> 'd LedgerClient" where
  "apdu_exchange tr client cmd =
     (case tr (device client) cmd of
        (res, d) \<Rightarrow>
          ((case res of
              Inl sw \<Rightarrow> Inl (DeviceCommunicationError sw)
            | Inr response \<Rightarrow> Inr response),
           \<lparr>device = d, sent = sent client @ [cmd]\<rparr>))"

section \<open>The signer appliance: \<^verbatim>\<open>LedgerStarknetApp\<close>\<close>

definition LedgerStarknetApp_init :: "nat + 'd \<Rightarrow> error + 'd LedgerClient" where
  \<comment> \<open>\<^verbatim>\<open>LedgerStarknetApp.__init__\<close>; the argument is what opening the device gave to
      \<^verbatim>\<open>LedgerClient(cla=STARKNET_CLA)\<close>: a failure, or a device\<close>
  "LedgerStarknetApp_init opened =
     (case opened of
        Inl sw \<Rightarrow> Inl (DeviceCommunicationError sw)
      | Inr d \<Rightarrow> Inr \<lparr>device = d, sent = []\<rparr>)"

definition get_public_key_command :: "Bip32Path \<Rightarrow> bool \<Rightarrow> apdu" where
  \<comment> \<open>the command of \<^verbatim>\<open>get_public_key\<close>, with \<^verbatim>\<open>p1=0 if device_confirmation else 0\<close>\<close>
  "get_public_key_command derivation_path device_confirmation =
     \<lparr>ins = 1, p1 = (if device_confirmation then 0 else 0), p2 = 0,
      data = derivation_path_to_bytes derivation_path\<rparr>"

definition get_public_key ::
  "'d transport \<Rightarrow> nat \<Rightarrow> 'd LedgerClient \<Rightarrow> Bip32Path \<Rightarrow> bool
     \<Rightarrow> (error + int) \<times> 'd LedgerClient" where
  \<comment> \<open>\<^verbatim>\<open>LedgerStarknetApp.get_public_key\<close>; the message of the error gives the length
      of the payload sent, \<^verbatim>\<open>len(data)\<close>, as the actual length\<close>
  "get_public_key tr PUBLIC_KEY_LENGTH client derivation_path device_confirmation =
     (case apdu_exchange tr client
             (get_public_key_command derivation_path device_confirmation) of
        (Inl e, client') \<Rightarrow> (Inl e, client')
      | (Inr response, client') \<Rightarrow>
          if length response \<noteq> PUBLIC_KEY_LENGTH then
            (Inl (UnexpectedResponseLength PUBLIC_KEY_LENGTH
                    (length (derivation_path_to_bytes derivation_path))), client')
          else (Inr (from_bytes (py_slice response 1 33)), client'))"

definition sign_hash_command_1 :: "Bip32Path \<Rightarrow> apdu" where
  \<comment> \<open>sign hash command 1\<close>
  "sign_hash_command_1 derivation_path =
     \<lparr>ins = 0, p1 = 0, p2 = 0, data = derivation_path_to_bytes derivation_path\<rparr>"

definition sign_hash_command_2 :: "bytes \<Rightarrow> apdu" where
  \<comment> \<open>sign hash command 2\<close>
  "sign_hash_command_2 shifted_bytes = \<lparr>ins = 0x02, p1 = 0x01, p2 = 0x00, data = shifted_bytes\<rparr>"

definition sign_hash_response :: "bytes \<Rightarrow> error + int list" where
  \<comment> \<open>the check of the response of command 2 and the extraction of \<open>r\<close> and \<open>s\<close>;
      the \<^verbatim>\<open>or\<close> of the source reads byte 0 only when the length is right\<close>
  "sign_hash_response response =
     (if length response \<noteq> SIGNATURE_LENGTH + 1 then
        Inl (UnexpectedResponseLength SIGNATURE_LENGTH (length response))
      else if unat (response ! 0) \<noteq> SIGNATURE_LENGTH then
        Inl (UnexpectedResponseLength SIGNATURE_LENGTH (length response))
      else Inr [from_bytes (py_slice response 1 33), from_bytes (py_slice response 33 65)])"

definition sign_hash ::
  "'d transport \<Rightarrow> 'd LedgerClient \<Rightarrow> Bip32Path \<Rightarrow> int
     \<Rightarrow> (error + int list) \<times> 'd LedgerClient" where
  \<comment> \<open>\<^verbatim>\<open>LedgerStarknetApp.sign_hash\<close>; the response of command 1 is not read\<close>
  "sign_hash tr client derivation_path hash_val =
     (case apdu_exchange tr client (sign_hash_command_1 derivation_path) of
        (Inl e, client1) \<Rightarrow> (Inl e, client1)
      | (Inr _, client1) \<Rightarrow>
          (let shifted_int = push_bit 4 hash_val in
           case to_bytes shifted_int 32 of
             Inl e \<Rightarrow> (Inl e, client1)
           | Inr shifted_bytes \<Rightarrow>
               (case apdu_exchange tr client1 (sign_hash_command_2 shifted_bytes) of
                  (Inl e, client2) \<Rightarrow> (Inl e, client2)
                | (Inr response, client2) \<Rightarrow> (sign_hash_response response, client2))))"

section \<open>The transaction signer: \<^verbatim>\<open>LedgerSigner\<close>\<close>

record ('d, 'c) LedgerSigner =
  app :: "'d LedgerClient"
  derivation_path :: Bip32Path
  chain_id :: 'c

definition LedgerSigner_init ::
  "nat + 'd \<Rightarrow> string \<Rightarrow> 'c \<Rightarrow> error + ('d, 'c) LedgerSigner" where
  \<comment> \<open>\<^verbatim>\<open>LedgerSigner.__init__\<close>: the app is created first, then the path is parsed\<close>
  "LedgerSigner_init opened derivation_path_str chain =
     (case LedgerStarknetApp_init opened of
        Inl e \<Rightarrow> Inl e
      | Inr a \<Rightarrow>
          (case parse_derivation_path_str derivation_path_str of
             Inl e \<Rightarrow> Inl e
           | Inr path \<Rightarrow> Inr \<lparr>app = a, derivation_path = path, chain_id = chain\<rparr>))"

definition public_key ::
  "'d transport \<Rightarrow> nat \<Rightarrow> ('d, 'c) LedgerSigner \<Rightarrow> (error + int) \<times> ('d, 'c) LedgerSigner" where
  \<comment> \<open>\<^verbatim>\<open>LedgerSigner.public_key\<close>\<close>
  "public_key tr PUBLIC_KEY_LENGTH signer =
     (case get_public_key tr PUBLIC_KEY_LENGTH (app signer) (derivation_path signer) False of
        (res, a) \<Rightarrow> (res, signer\<lparr>app := a\<rparr>))"

definition sign_transaction ::
  "'d transport \<Rightarrow> ('t \<Rightarrow> 'c \<Rightarrow> int) \<Rightarrow> ('d, 'c) LedgerSigner \<Rightarrow> 't
     \<Rightarrow> (error + int list) \<times> ('d, 'c) LedgerSigner" where
  \<comment> \<open>\<^verbatim>\<open>LedgerSigner.sign_transaction\<close>; \<open>calculate_hash\<close> is the transaction's own\<close>
  "sign_transaction tr calculate_hash signer transaction =
     (let tx_hash = calculate_hash transaction (chain_id signer) in
      case sign_hash tr (app signer) (derivation_path signer) tx_hash of
        (res, a) \<Rightarrow> (res, signer\<lparr>app := a\<rparr>))"

definition sign_message ::
  "'d transport \<Rightarrow> ('m \<Rightarrow> int \<Rightarrow> int) \<Rightarrow> ('d, 'c) LedgerSigner \<Rightarrow> 'm \<Rightarrow> int
     \<Rightarrow> (error + int list) \<times> ('d, 'c) LedgerSigner" where
  \<comment> \<open>\<^verbatim>\<open>LedgerSigner.sign_message\<close>; \<open>message_hash\<close> is the typed data's own\<close>
  "sign_message tr message_hash signer typed_data account_address =
     (let msg_hash = message_hash typed_data account_address in
      case sign_hash tr (app signer) (derivation_path signer) msg_hash of
        (res, a) \<Rightarrow> (res, signer\<lparr>app := a\<rparr>))"

section \<open>The path string format of the specification\<close>

text \<open>
  The specification writes a path as \<^verbatim>\<open>m/2645'/p1'/p2'/p3'/p4'/p5\<close>: every element is a
  decimal number, and an apostrophe after it marks hardening. \<open>index_literal\<close> says this of
  one element, for numbers that fit in 32 bits. The parser accepts every such element
  (\<open>index_literal_parses\<close> below), and more: \<^verbatim>\<open>int\<close> also reads a sign, white space
  and underscores.
\<close>

definition decimal_value :: "string \<Rightarrow> int" where
  "decimal_value ds = foldl (\<lambda>acc c. acc * 10 + digit_val c) 0 ds"

definition index_literal :: "string \<Rightarrow> bool" where
  "index_literal part =
     (let ds = (if py_endswith part (CHR 0x27) then butlast part else part)
      in ds \<noteq> [] \<and> list_all is_digit ds \<and> decimal_value ds < 2 ^ 32)"

section \<open>Test data\<close>

text \<open>
  A mock transport that answers every command with the same response, the derivation path
  of \<^verbatim>\<open>m/2645'/1195502025'/1470455285'/0'/0'/0\<close>, and responses of 65 bytes: signature
  responses with the tag byte 64, and a public key response. In the responses named
  \<open>1234\<close> the most significant bytes are 0 and the bytes \<^verbatim>\<open>0x12 0x34\<close> come last in the first
  half, so the byte order shows in the integer read: 4660 when read big-endian. They serve
  to run the operations on concrete inputs.
\<close>

definition fixed_response_device :: "bytes \<Rightarrow> unit transport" where
  "fixed_response_device response d cmd = (Inr response, d)"

definition example_path :: Bip32Path where
  "example_path = [0x80000A55, 0xC741E9C9, 0xD7A55DF5, 0x80000000, 0x80000000, 0]"

definition example_signature_response :: bytes where
  "example_signature_response = 64 # replicate 32 1 @ replicate 32 2"

definition signature_response_1234 :: bytes where
  "signature_response_1234 =
     64 # (replicate 30 0 @ [0x12, 0x34]) @ (1 # replicate 31 0)"

definition public_key_response_1234 :: bytes where
  "public_key_response_1234 =
     4 # (replicate 30 0 @ [0x12, 0x34]) @ replicate 32 9"

section \<open>Properties of the builtins and of the codec\<close>

lemma parse_parts_length:
  "parse_parts parts = Inr path_elements \<Longrightarrow> length path_elements = length parts"
proof (induction parts arbitrary: path_elements)
  case Nil
  then show ?case by simp
next
  case (Cons part parts)
  then show ?case by (auto split: sum.splits)
qed

lemma length_be_bytes: "length (be_bytes len n) = len"
  by (induction len arbitrary: n) simp_all

lemma length_ToBytes: "length (ToBytes index) = 4"
  by (simp add: ToBytes_def length_be_bytes)

lemma length_derivation_path_to_bytes:
  "length (derivation_path_to_bytes path) = 4 * length path"
  by (induction path) (simp_all add: derivation_path_to_bytes_def length_ToBytes)

lemma from_bytes_snoc: "from_bytes (bs @ [b]) = from_bytes bs * 256 + uint b"
  by (simp add: from_bytes_def)

lemma from_bytes_be_bytes: "from_bytes (be_bytes len n) = n mod 256 ^ len"
proof (induction len arbitrary: n)
  case 0
  then show ?case by (simp add: from_bytes_def)
next
  case (Suc len)
  have "uint (word_of_int n :: byte) = n mod 256"
    by (simp add: uint_word_of_int)
  then have "from_bytes (be_bytes (Suc len) n) = (n div 256 mod 256 ^ len) * 256 + n mod 256"
    by (simp add: from_bytes_snoc Suc.IH)
  also have "\<dots> = n mod 256 ^ Suc len"
    using zmod_zmult2_eq [of "256 ^ len" n 256] by simp
  finally show ?case .
qed

lemma from_bytes_nonneg: "0 \<le> from_bytes bs"
  by (induction bs rule: rev_induct) (simp_all add: from_bytes_def)

lemma from_bytes_bound: "from_bytes bs < 256 ^ length bs"
proof (induction bs rule: rev_induct)
  case Nil
  then show ?case by (simp add: from_bytes_def)
next
  case (snoc b bs)
  have "uint b < 256" using uint_bounded [of b] by simp
  with snoc show ?case by (simp add: from_bytes_snoc)
qed

lemma from_bytes_slice_range:
  assumes "j - i \<le> 32"
  shows "0 \<le> from_bytes (py_slice xs i j)" and "from_bytes (py_slice xs i j) < 2 ^ 256"
proof -
  show "0 \<le> from_bytes (py_slice xs i j)" by (rule from_bytes_nonneg)
  have "length (py_slice xs i j) \<le> 32"
    using assms by (simp add: py_slice_def)
  then have "(256::int) ^ length (py_slice xs i j) \<le> 256 ^ 32"
    by (intro power_increasing) simp_all
  with from_bytes_bound [of "py_slice xs i j"] show "from_bytes (py_slice xs i j) < 2 ^ 256"
    by simp
qed

lemma from_bytes_positional:
  "from_bytes bs = (\<Sum>i < length bs. uint (bs ! i) * 256 ^ (length bs - 1 - i))"
proof (induction bs rule: rev_induct)
  case Nil
  then show ?case by (simp add: from_bytes_def)
next
  case (snoc b bs)
  have "(\<Sum>i < length bs. uint ((bs @ [b]) ! i) * 256 ^ (length (bs @ [b]) - 1 - i)) =
        (\<Sum>i < length bs. (uint (bs ! i) * 256 ^ (length bs - 1 - i)) * 256)"
  proof (rule sum.cong)
    fix i assume "i \<in> {..<length bs}"
    then have i: "i < length bs" by simp
    then have "length bs - i = Suc (length bs - 1 - i)" by simp
    with i show "uint ((bs @ [b]) ! i) * 256 ^ (length (bs @ [b]) - 1 - i) =
        (uint (bs ! i) * 256 ^ (length bs - 1 - i)) * 256"
      by (simp add: nth_append)
  qed simp
  also have "\<dots> = from_bytes bs * 256"
    by (simp add: snoc.IH sum_distrib_right)
  finally show ?case
    by (simp add: from_bytes_snoc)
qed

lemma from_bytes_slice_positional:
  assumes "i + n \<le> length xs"
  shows "from_bytes (py_slice xs i (i + n)) = (\<Sum>k < n. uint (xs ! (i + k)) * 256 ^ (n - 1 - k))"
proof -
  have len: "length (py_slice xs i (i + n)) = n"
    using assms by (simp add: py_slice_def)
  have "py_slice xs i (i + n) ! k = xs ! (i + k)" if "k < n" for k
    using that assms by (simp add: py_slice_def)
  then show ?thesis
    by (simp add: from_bytes_positional len)
qed

lemma from_bytes_slice_cut:
  "from_bytes (py_slice xs i j) =
   (\<Sum>k < min (j - i) (length xs - i).
      uint (xs ! (i + k)) * 256 ^ (min (j - i) (length xs - i) - 1 - k))"
proof -
  have len: "length (py_slice xs i j) = min (j - i) (length xs - i)"
    by (simp add: py_slice_def min.commute)
  have "py_slice xs i j ! k = xs ! (i + k)" if "k < min (j - i) (length xs - i)" for k
  proof -
    from that have "i \<le> length xs" and "k < j - i" by arith+
    then show ?thesis by (simp add: py_slice_def)
  qed
  then show ?thesis
    by (simp add: from_bytes_positional len)
qed

lemma path_parts_empty: "path_parts [] = [[]]"
  by (simp add: path_parts_def py_split_def py_lstrip_def)

lemma py_int_error: "py_int s = Inl e \<Longrightarrow> e = InvalidLiteral s"
  by (auto simp: py_int_def Let_def split: list.splits if_splits option.splits)

lemma Bip32KeyIndex_error: "Bip32KeyIndex idx = Inl e \<Longrightarrow> e = InvalidKeyIndex idx"
  by (auto simp: Bip32KeyIndex_def split: if_splits)

lemma parse_part_error:
  "parse_part part = Inl e \<Longrightarrow> (\<exists>s. e = InvalidLiteral s) \<or> (\<exists>idx. e = InvalidKeyIndex idx)"
  by (auto simp: parse_part_def split: if_splits sum.splits
      dest: py_int_error Bip32KeyIndex_error)

lemma parse_parts_error:
  "parse_parts parts = Inl e \<Longrightarrow> (\<exists>s. e = InvalidLiteral s) \<or> (\<exists>idx. e = InvalidKeyIndex idx)"
proof (induction parts)
  case Nil
  then show ?case by simp
next
  case (Cons part parts)
  then show ?case
    by (auto split: sum.splits dest: parse_part_error)
qed

lemma parse_parts_nonempty_string:
  "parse_parts (path_parts s) = Inr path_elements \<Longrightarrow> s \<noteq> []"
  by (auto simp: path_parts_empty parse_part_def py_endswith_def py_int_def py_strip_space_def)

lemma parse_of_parsed_parts:
  "parse_parts (path_parts s) = Inr path_elements \<Longrightarrow>
   parse_derivation_path_str s = check_path_elements path_elements"
  using parse_parts_nonempty_string [of s path_elements]
  by (simp add: parse_derivation_path_str_def parse_nonempty_def)

lemma prefix_error_length:
  assumes "parse_derivation_path_str t = Inl NotPrefixed"
  shows "length (path_parts t) = EIP_2645_PATH_LENGTH"
proof (cases "parse_parts (path_parts t)")
  case (Inl e)
  with assms have "e = NotPrefixed"
    by (simp add: parse_derivation_path_str_def parse_nonempty_def split: if_splits)
  with Inl show ?thesis
    by (auto dest: parse_parts_error)
next
  case (Inr path_elements)
  with assms have "length path_elements = EIP_2645_PATH_LENGTH"
    by (simp add: parse_of_parsed_parts check_path_elements_def split: if_splits)
  with Inr show ?thesis
    by (simp add: parse_parts_length)
qed

subsection \<open>Elements in the format of the specification are converted\<close>

lemma digits_value_digits:
  "list_all is_digit ds \<Longrightarrow>
   digits_value acc ds = Some (foldl (\<lambda>acc c. acc * 10 + digit_val c) acc ds)"
  by (induction ds arbitrary: acc) simp_all

lemma is_digit_not_space: "is_digit c \<Longrightarrow> \<not> py_isspace c"
  by (auto simp: is_digit_def py_isspace_def)

lemma is_digit_not_sign: "is_digit c \<Longrightarrow> c \<noteq> CHR ''-'' \<and> c \<noteq> CHR ''+''"
  by (auto simp: is_digit_def)

lemma digit_val_nonneg: "is_digit c \<Longrightarrow> 0 \<le> digit_val c"
  by (simp add: is_digit_def digit_val_def)

lemma py_strip_space_digits:
  assumes "ds \<noteq> []" and "list_all is_digit ds"
  shows "py_strip_space ds = ds"
proof -
  from assms obtain c cs where ds: "ds = c # cs" by (cases ds) simp_all
  with assms have "\<not> py_isspace c" by (simp add: is_digit_not_space)
  with ds have front: "dropWhile py_isspace ds = ds" by simp
  from assms have "rev ds \<noteq> []" and "list_all is_digit (rev ds)"
    by (simp_all add: list_all_iff)
  then obtain d bs where r: "rev ds = d # bs" and "is_digit d"
    by (cases "rev ds") simp_all
  then have "dropWhile py_isspace (rev ds) = rev ds"
    by (simp add: is_digit_not_space)
  with front show ?thesis by (simp add: py_strip_space_def)
qed

lemma foldl_decimal_nonneg:
  "list_all is_digit ds \<Longrightarrow> 0 \<le> acc \<Longrightarrow>
   0 \<le> foldl (\<lambda>acc c. acc * 10 + digit_val c) acc ds"
  by (induction ds arbitrary: acc) (simp_all add: digit_val_nonneg)

lemma py_int_digits:
  assumes "ds \<noteq> []" and "list_all is_digit ds"
  shows "py_int ds = Inr (decimal_value ds)" and "0 \<le> decimal_value ds"
proof -
  from assms obtain c cs where ds: "ds = c # cs" and c: "is_digit c" and cs: "list_all is_digit cs"
    by (cases ds) simp_all
  have "digits_value (digit_val c) cs = Some (decimal_value ds)"
    using cs by (simp add: digits_value_digits ds decimal_value_def)
  moreover have "py_strip_space (c # cs) = c # cs"
    using py_strip_space_digits [OF assms] ds by simp
  ultimately show "py_int ds = Inr (decimal_value ds)"
    using c is_digit_not_sign [OF c] by (simp add: py_int_def ds)
  show "0 \<le> decimal_value ds"
    using assms(2) by (simp add: decimal_value_def foldl_decimal_nonneg)
qed

lemma HardenIndex_range:
  assumes "0 \<le> n" and "n < 2 ^ 32"
  shows "0 \<le> HardenIndex n" and "HardenIndex n < 2 ^ 32"
proof -
  show "0 \<le> HardenIndex n"
    using assms(1) by (simp add: HardenIndex_def)
  have "n OR push_bit 31 1 < 2 ^ 32"
    using assms by (intro OR_upper) simp_all
  then show "HardenIndex n < 2 ^ 32"
    by (simp add: HardenIndex_def)
qed

lemma index_literal_parses:
  assumes "index_literal part"
  shows "\<exists>index. parse_part part = Inr index"
proof -
  define ds where "ds = (if py_endswith part (CHR 0x27) then butlast part else part)"
  with assms have ds: "ds \<noteq> []" "list_all is_digit ds" "decimal_value ds < 2 ^ 32"
    by (simp_all add: index_literal_def Let_def)
  note lit = py_int_digits [OF ds(1,2)]
  show ?thesis
  proof (cases "py_endswith part (CHR 0x27)")
    case True
    with lit ds_def have "py_int (butlast part) = Inr (decimal_value ds)" by simp
    with True HardenIndex_range [OF lit(2) ds(3)] show ?thesis
      by (simp add: parse_part_def Bip32KeyIndex_def KEY_INDEX_MAX_VAL_def)
  next
    case False
    with lit ds_def have "py_int part = Inr (decimal_value ds)" by simp
    with False lit(2) ds(3) show ?thesis
      by (simp add: parse_part_def Bip32KeyIndex_def KEY_INDEX_MAX_VAL_def)
  qed
qed

lemma index_literals_parse:
  "list_all index_literal parts \<Longrightarrow> \<exists>path_elements. parse_parts parts = Inr path_elements"
proof (induction parts)
  case Nil
  then show ?case by simp
next
  case (Cons part parts)
  then obtain index path_elements where
    "parse_part part = Inr index" and "parse_parts parts = Inr path_elements"
    using index_literal_parses [of part] by auto
  then show ?case by simp
qed

lemma example_path_literals:
  "list_all index_literal (path_parts ''m/2645'/1195502025'/1470455285'/0'/0'/0'')"
  by code_simp

subsection \<open>The encoding and the exchanges\<close>



lemma sent_apdu_exchange:
  "apdu_exchange tr client cmd = (res, client') \<Longrightarrow> sent client' = sent client @ [cmd]"
  by (auto simp: apdu_exchange_def split: prod.splits)

lemma apdu_exchange_error:
  "apdu_exchange tr client cmd = (Inl e, client') \<Longrightarrow> \<exists>sw. e = DeviceCommunicationError sw"
  by (auto simp: apdu_exchange_def split: prod.splits sum.splits)

lemma to_bytes_shifted:
  "to_bytes (push_bit 4 hash_val) 32 =
     (if 0 \<le> hash_val \<and> hash_val < 2 ^ 252 then Inr (be_bytes 32 (push_bit 4 hash_val))
      else Inl OverflowError)"
  by (simp add: to_bytes_def push_bit_eq_mult)

lemma sign_hash_response_error:
  "sign_hash_response response = Inl e \<Longrightarrow>
   e = UnexpectedResponseLength SIGNATURE_LENGTH (length response)"
  by (simp add: sign_hash_response_def split: if_splits)

lemma sign_hash_response_signature:
  assumes "sign_hash_response response = Inr signature"
  shows "length response = SIGNATURE_LENGTH + 1 \<and> unat (response ! 0) = SIGNATURE_LENGTH \<and>
         signature = [from_bytes (py_slice response 1 33), from_bytes (py_slice response 33 65)]"
  using assms by (auto simp: sign_hash_response_def split: if_splits)

lemma signature_slices:
  assumes "length response = 65"
  shows "length (py_slice response 1 33) = 32" and "length (py_slice response 33 65) = 32"
    and "response = response ! 0 # py_slice response 1 33 @ py_slice response 33 65"
proof -
  show "length (py_slice response 1 33) = 32" "length (py_slice response 33 65) = 32"
    using assms by (simp_all add: py_slice_def)
  obtain b bs where r: "response = b # bs" using assms by (cases response) simp_all
  with assms have "length bs = 64" by simp
  then have "take 32 (drop 32 bs) = drop 32 bs" by simp
  then have "bs = take 32 bs @ take 32 (drop 32 bs)" by simp
  with r show "response = response ! 0 # py_slice response 1 33 @ py_slice response 33 65"
    by (simp add: py_slice_def)
qed

lemma sent_sign_hash_phase_2:
  assumes "apdu_exchange tr client (sign_hash_command_1 path) = (Inr ack, client1)"
    and "to_bytes (push_bit 4 hash_val) 32 = Inr shifted_bytes"
  shows "sent (snd (sign_hash tr client path hash_val)) =
         sent client @ [sign_hash_command_1 path, sign_hash_command_2 shifted_bytes]"
proof -
  obtain res client2 where
    ex2: "apdu_exchange tr client1 (sign_hash_command_2 shifted_bytes) = (res, client2)"
    by (cases "apdu_exchange tr client1 (sign_hash_command_2 shifted_bytes)")
  then have "snd (sign_hash tr client path hash_val) = client2"
    using assms by (cases res) (simp_all add: sign_hash_def)
  moreover have "sent client2 = sent client1 @ [sign_hash_command_2 shifted_bytes]"
    using ex2 by (rule sent_apdu_exchange)
  moreover have "sent client1 = sent client @ [sign_hash_command_1 path]"
    using assms(1) by (rule sent_apdu_exchange)
  ultimately show ?thesis by simp
qed

lemma sign_hash_encoding_fails:
  assumes "hash_val < 0 \<or> 2 ^ 252 \<le> hash_val"
    and "apdu_exchange tr client (sign_hash_command_1 path) = (Inr ack, client1)"
  shows "sign_hash tr client path hash_val = (Inl OverflowError, client1)"
proof -
  have "to_bytes (push_bit 4 hash_val) 32 = Inl OverflowError"
    using assms(1) by (auto simp: to_bytes_shifted)
  with assms(2) show ?thesis by (simp add: sign_hash_def)
qed

subsection \<open>Concrete runs\<close>

lemma example_path_length:
  "length (path_parts ''m/2645'/1195502025'/1470455285'/0'/0'/0'') = 6"
  by code_simp

lemma example_path_parts:
  "parse_parts (path_parts ''m/2645'/1195502025'/1470455285'/0'/0'/0'') =
   Inr [0x80000A55, 0xC741E9C9, 0xD7A55DF5, 0x80000000, 0x80000000, 0]"
  by code_simp

lemma example_path_purpose:
  "uint ([0x80000A55, 0xC741E9C9, 0xD7A55DF5, 0x80000000, 0x80000000, 0 :: 32 word] ! 0) = EIP_2645_PURPOSE"
  by (simp add: EIP_2645_PURPOSE_def)

lemma other_purpose_result:
  "parse_derivation_path_str ''m/1234'/1195502025'/1470455285'/0'/0'/0'' = Inl NotPrefixed"
  by code_simp

lemma long_path_parts:
  "parse_parts (path_parts ''m/2645'/1195502025'/1470455285'/0'/0'/0/0'') =
   Inr [0x80000A55, 0xC741E9C9, 0xD7A55DF5, 0x80000000, 0x80000000, 0, 0]"
  by code_simp

lemma long_path_length:
  "length (path_parts ''m/2645'/1195502025'/1470455285'/0'/0'/0/0'') \<noteq> EIP_2645_PATH_LENGTH"
  by code_simp

lemma example_path_bytes:
  "derivation_path_to_bytes [0x80000A55, 0xC741E9C9, 0xD7A55DF5, 0x80000000, 0x80000000, 0] =
   [128, 0, 10, 85, 199, 65, 233, 201, 215, 165, 93, 245, 128, 0, 0, 0, 128, 0, 0, 0, 0, 0, 0, 0]"
  by code_simp

lemma example_exchange_1:
  "apdu_exchange (fixed_response_device example_signature_response) \<lparr>device = (), sent = []\<rparr>
     (sign_hash_command_1 example_path) =
   (Inr example_signature_response, \<lparr>device = (), sent = [sign_hash_command_1 example_path]\<rparr>)"
  by (simp add: apdu_exchange_def fixed_response_device_def)

lemma example_shifted: "to_bytes (push_bit 4 1) 32 = Inr (replicate 31 0 @ [16])"
  by code_simp

lemma example_overflow_exchange:
  "apdu_exchange (fixed_response_device []) \<lparr>device = (), sent = []\<rparr>
     (sign_hash_command_1 example_path) =
   (Inr [], \<lparr>device = (), sent = [sign_hash_command_1 example_path]\<rparr>)"
  by (simp add: apdu_exchange_def fixed_response_device_def)

lemma fixed_response_exchange:
  "apdu_exchange (fixed_response_device response) client cmd =
   (Inr response, \<lparr>device = (), sent = sent client @ [cmd]\<rparr>)"
  by (simp add: apdu_exchange_def fixed_response_device_def)

lemma signature_response_1234_valid:
  "length signature_response_1234 = SIGNATURE_LENGTH + 1 \<and>
   unat (signature_response_1234 ! 0) = SIGNATURE_LENGTH"
  by (simp add: signature_response_1234_def SIGNATURE_LENGTH_def)

lemma signature_response_1234_r:
  "from_bytes (py_slice signature_response_1234 1 33) = 4660"
  by code_simp

lemma signature_response_1234_s:
  "from_bytes (py_slice signature_response_1234 33 65) = 2 ^ 248"
  by code_simp

lemma public_key_response_1234_length: "length public_key_response_1234 = 65"
  by (simp add: public_key_response_1234_def)

lemma public_key_response_1234_key:
  "from_bytes (py_slice public_key_response_1234 1 33) = 4660"
  by code_simp

section \<open>The claims\<close>

text \<open>
  C7. Parsing the empty string fails with the empty-path error. The check is the first
  statement of the function: what follows it, run on the empty string, would raise
  another error (the one part of the split is not an integer literal), so the error seen
  is the one of the emptiness check.
\<close>

theorem parse_empty_string:
  "parse_derivation_path_str [] = Inl EmptyDerivationPath \<and>
   parse_nonempty [] = Inl (InvalidLiteral [])"
  by (simp add: parse_derivation_path_str_def parse_nonempty_def path_parts_empty
      parse_part_def py_endswith_def py_int_def py_strip_space_def)

text \<open>
  C4. The command of \<open>get_public_key\<close> does not depend on the confirmation flag: both
  branches of the conditional that computes its parameter byte are 0, so the same command
  is sent and the same result is returned for both values of the flag.
\<close>

theorem get_public_key_ignores_confirmation:
  "get_public_key_command path True = get_public_key_command path False \<and>
   p1 (get_public_key_command path True) = 0 \<and>
   get_public_key tr PUBLIC_KEY_LENGTH client path True =
   get_public_key tr PUBLIC_KEY_LENGTH client path False"
  by (simp add: get_public_key_def get_public_key_command_def)

text \<open>
  C3, as amended. Take a path string that splits into 6 parts, each of which parses to a
  key index: an integer literal, with or without the hardening apostrophe, in the range of
  32 bits. If the first index equals the hardened purpose \<^verbatim>\<open>0x80000A55\<close>, parsing succeeds
  and returns the six indices; otherwise it fails with the prefix error. The prefix error
  is raised for strings of exactly 6 parts only: the purpose check comes after the length
  check.
\<close>

theorem parse_six_elements:
  assumes "length (path_parts s) = 6"
    and "parse_parts (path_parts s) = Inr path_elements"
  shows "(uint (path_elements ! 0) = EIP_2645_PURPOSE \<longrightarrow>
            parse_derivation_path_str s = Inr path_elements) \<and>
         (uint (path_elements ! 0) \<noteq> EIP_2645_PURPOSE \<longrightarrow>
            parse_derivation_path_str s = Inl NotPrefixed) \<and>
         (parse_derivation_path_str t = Inl NotPrefixed \<longrightarrow> length (path_parts t) = 6)"
proof -
  have "length path_elements = EIP_2645_PATH_LENGTH"
    using assms by (simp add: parse_parts_length EIP_2645_PATH_LENGTH_def)
  then have "parse_derivation_path_str s =
      (if uint (path_elements ! 0) \<noteq> EIP_2645_PURPOSE then Inl NotPrefixed
       else Inr path_elements)"
    using assms(2) by (simp add: parse_of_parsed_parts check_path_elements_def)
  moreover have "parse_derivation_path_str t = Inl NotPrefixed \<longrightarrow> length (path_parts t) = 6"
    using prefix_error_length [of t] by (simp add: EIP_2645_PATH_LENGTH_def)
  ultimately show ?thesis by simp
qed

theorem parse_six_elements_witness:
  "length (path_parts ''m/2645'/1195502025'/1470455285'/0'/0'/0'') = 6 \<and>
   parse_parts (path_parts ''m/2645'/1195502025'/1470455285'/0'/0'/0'') =
     Inr [0x80000A55, 0xC741E9C9, 0xD7A55DF5, 0x80000000, 0x80000000, 0] \<and>
   parse_derivation_path_str ''m/2645'/1195502025'/1470455285'/0'/0'/0'' =
     Inr [0x80000A55, 0xC741E9C9, 0xD7A55DF5, 0x80000000, 0x80000000, 0] \<and>
   parse_derivation_path_str ''m/1234'/1195502025'/1470455285'/0'/0'/0'' = Inl NotPrefixed \<and>
   length (path_parts ''m/1234'/1195502025'/1470455285'/0'/0'/0'') = 6"
  using parse_six_elements [OF example_path_length example_path_parts,
      of "''m/1234'/1195502025'/1470455285'/0'/0'/0''"]
    example_path_length example_path_parts example_path_purpose other_purpose_result
  by simp

theorem parse_six_elements_counterexample:
  "length (path_parts ''m/2645'/x/0/0/0/0'') = 6 \<and>
   parse_part (path_parts ''m/2645'/x/0/0/0/0'' ! 0) = Inr 0x80000A55 \<and>
   parse_derivation_path_str ''m/2645'/x/0/0/0/0'' = Inl (InvalidLiteral ''x'') \<and>
   length (path_parts ''m/1234'/x/0/0/0/0'') = 6 \<and>
   parse_part (path_parts ''m/1234'/x/0/0/0/0'' ! 0) = Inr 0x800004D2 \<and>
   parse_derivation_path_str ''m/1234'/x/0/0/0/0'' = Inl (InvalidLiteral ''x'')"
  by code_simp

text \<open>
  C6, as amended. Take a path string all of whose parts parse to key indices (which the
  empty string does not) and whose number of parts is not 6: parsing fails with the length
  error, whatever the first index is, so the length check comes before the purpose check.
\<close>

theorem parse_wrong_length:
  assumes "parse_parts (path_parts s) = Inr path_elements"
    and "length (path_parts s) \<noteq> EIP_2645_PATH_LENGTH"
  shows "parse_derivation_path_str s = Inl (NotLevelLong EIP_2645_PATH_LENGTH)"
proof -
  have "length path_elements \<noteq> EIP_2645_PATH_LENGTH"
    using assms by (simp add: parse_parts_length)
  then show ?thesis
    using assms(1) by (simp add: parse_of_parsed_parts check_path_elements_def)
qed

theorem parse_wrong_length_witness:
  "parse_parts (path_parts ''m/2645'/1195502025'/1470455285'/0'/0'/0/0'') =
     Inr [0x80000A55, 0xC741E9C9, 0xD7A55DF5, 0x80000000, 0x80000000, 0, 0] \<and>
   length (path_parts ''m/2645'/1195502025'/1470455285'/0'/0'/0/0'') \<noteq> EIP_2645_PATH_LENGTH \<and>
   parse_derivation_path_str ''m/2645'/1195502025'/1470455285'/0'/0'/0/0'' = Inl (NotLevelLong 6)"
  using parse_wrong_length [OF long_path_parts long_path_length] long_path_parts long_path_length
  by (simp add: EIP_2645_PATH_LENGTH_def)

theorem parse_wrong_length_counterexample:
  "length (path_parts ''m/2645'/x'') = 2 \<and>
   parse_derivation_path_str ''m/2645'/x'' = Inl (InvalidLiteral ''x'') \<and>
   length (path_parts []) = 1 \<and>
   parse_derivation_path_str [] = Inl EmptyDerivationPath"
  by code_simp



text \<open>
  C1. When both exchanges of \<open>sign_hash\<close> return, the response of the second one decides
  the result. If its length is not \<open>SIGNATURE_LENGTH + 1\<close> or its byte 0 is not
  \<open>SIGNATURE_LENGTH\<close>, the result is the unexpected-response-length error. Otherwise the
  result is the pair \<open>r\<close>, \<open>s\<close> of the big-endian integers of bytes 1 to 32 and 33 to 64:
  byte \<open>1 + k\<close> of the response has the weight \<open>256 ^ (31 - k)\<close> in \<open>r\<close>, and byte
  \<open>33 + k\<close> has it in \<open>s\<close>. The two halves of 32 bytes make up the response after its tag,
  so both integers lie between 0 and \<open>2 ^ 256 - 1\<close>. A signature that \<open>sign_hash\<close> returns,
  in any run, is this pair read from the response that the transport gave to command 2,
  and that response passed both checks.
\<close>

theorem sign_hash_response_checked:
  assumes "apdu_exchange tr client (sign_hash_command_1 path) = (Inr ack, client1)"
    and "to_bytes (push_bit 4 hash_val) 32 = Inr shifted_bytes"
    and "apdu_exchange tr client1 (sign_hash_command_2 shifted_bytes) = (Inr response, client2)"
  shows "(length response \<noteq> SIGNATURE_LENGTH + 1 \<or> unat (response ! 0) \<noteq> SIGNATURE_LENGTH \<longrightarrow>
            sign_hash tr client path hash_val =
              (Inl (UnexpectedResponseLength SIGNATURE_LENGTH (length response)), client2)) \<and>
         (length response = SIGNATURE_LENGTH + 1 \<and> unat (response ! 0) = SIGNATURE_LENGTH \<longrightarrow>
            sign_hash tr client path hash_val =
              (Inr [\<Sum>k < 32. uint (response ! (1 + k)) * 256 ^ (31 - k),
                    \<Sum>k < 32. uint (response ! (33 + k)) * 256 ^ (31 - k)], client2) \<and>
            from_bytes (py_slice response 1 33) =
              (\<Sum>k < 32. uint (response ! (1 + k)) * 256 ^ (31 - k)) \<and>
            from_bytes (py_slice response 33 65) =
              (\<Sum>k < 32. uint (response ! (33 + k)) * 256 ^ (31 - k)) \<and>
            length (py_slice response 1 33) = 32 \<and> length (py_slice response 33 65) = 32 \<and>
            response = response ! 0 # py_slice response 1 33 @ py_slice response 33 65 \<and>
            0 \<le> from_bytes (py_slice response 1 33) \<and>
            from_bytes (py_slice response 1 33) < 2 ^ 256 \<and>
            0 \<le> from_bytes (py_slice response 33 65) \<and>
            from_bytes (py_slice response 33 65) < 2 ^ 256) \<and>
         (fst (sign_hash tr' client' path' hash_val') = Inr signature \<longrightarrow>
            (\<exists>ack' client1' response' client2'.
               apdu_exchange tr' client' (sign_hash_command_1 path') = (Inr ack', client1') \<and>
               apdu_exchange tr' client1'
                 (sign_hash_command_2 (be_bytes 32 (push_bit 4 hash_val'))) =
                 (Inr response', client2') \<and>
               length response' = SIGNATURE_LENGTH + 1 \<and>
               unat (response' ! 0) = SIGNATURE_LENGTH \<and>
               signature = [\<Sum>k < 32. uint (response' ! (1 + k)) * 256 ^ (31 - k),
                            \<Sum>k < 32. uint (response' ! (33 + k)) * 256 ^ (31 - k)]))"
proof -
  have halves: "from_bytes (py_slice bs 1 33) =
        (\<Sum>k < 32. uint (bs ! (1 + k)) * 256 ^ (31 - k)) \<and>
      from_bytes (py_slice bs 33 65) =
        (\<Sum>k < 32. uint (bs ! (33 + k)) * 256 ^ (31 - k))"
    if "length bs = SIGNATURE_LENGTH + 1" for bs :: bytes
  proof -
    from that have "1 + 32 \<le> length bs" and "33 + 32 \<le> length bs"
      by (simp_all add: SIGNATURE_LENGTH_def)
    from from_bytes_slice_positional [OF this(1)] from_bytes_slice_positional [OF this(2)]
    show ?thesis by simp
  qed
  have run: "sign_hash tr client path hash_val = (sign_hash_response response, client2)"
    using assms by (simp add: sign_hash_def)
  have bad: "sign_hash tr client path hash_val =
      (Inl (UnexpectedResponseLength SIGNATURE_LENGTH (length response)), client2)"
    if "length response \<noteq> SIGNATURE_LENGTH + 1 \<or> unat (response ! 0) \<noteq> SIGNATURE_LENGTH"
    using that run by (auto simp: sign_hash_response_def)
  have good: "sign_hash tr client path hash_val =
      (Inr [\<Sum>k < 32. uint (response ! (1 + k)) * 256 ^ (31 - k),
            \<Sum>k < 32. uint (response ! (33 + k)) * 256 ^ (31 - k)], client2) \<and>
      from_bytes (py_slice response 1 33) =
        (\<Sum>k < 32. uint (response ! (1 + k)) * 256 ^ (31 - k)) \<and>
      from_bytes (py_slice response 33 65) =
        (\<Sum>k < 32. uint (response ! (33 + k)) * 256 ^ (31 - k)) \<and>
      length (py_slice response 1 33) = 32 \<and> length (py_slice response 33 65) = 32 \<and>
      response = response ! 0 # py_slice response 1 33 @ py_slice response 33 65"
    if ok: "length response = SIGNATURE_LENGTH + 1 \<and> unat (response ! 0) = SIGNATURE_LENGTH"
  proof -
    from ok have "length response = 65" by (simp add: SIGNATURE_LENGTH_def)
    note parts = signature_slices [OF this]
    from ok run have "sign_hash tr client path hash_val =
        (Inr [from_bytes (py_slice response 1 33), from_bytes (py_slice response 33 65)], client2)"
      by (simp add: sign_hash_response_def)
    with halves [of response] ok parts show ?thesis by simp
  qed
  have range: "0 \<le> from_bytes (py_slice response 1 33) \<and>
      from_bytes (py_slice response 1 33) < 2 ^ 256 \<and>
      0 \<le> from_bytes (py_slice response 33 65) \<and>
      from_bytes (py_slice response 33 65) < 2 ^ 256"
    using from_bytes_slice_range [of 33 1 response] from_bytes_slice_range [of 65 33 response]
    by simp
  have whole: "\<exists>ack' client1' response' client2'.
      apdu_exchange tr' client' (sign_hash_command_1 path') = (Inr ack', client1') \<and>
      apdu_exchange tr' client1' (sign_hash_command_2 (be_bytes 32 (push_bit 4 hash_val'))) =
        (Inr response', client2') \<and>
      length response' = SIGNATURE_LENGTH + 1 \<and> unat (response' ! 0) = SIGNATURE_LENGTH \<and>
      signature = [\<Sum>k < 32. uint (response' ! (1 + k)) * 256 ^ (31 - k),
                   \<Sum>k < 32. uint (response' ! (33 + k)) * 256 ^ (31 - k)]"
    if returned: "fst (sign_hash tr' client' path' hash_val') = Inr signature"
  proof -
    obtain res1 c1 where
      ex1: "apdu_exchange tr' client' (sign_hash_command_1 path') = (res1, c1)"
      by (cases "apdu_exchange tr' client' (sign_hash_command_1 path')")
    with returned obtain ack' where ok1: "res1 = Inr ack'"
      by (cases res1) (simp_all add: sign_hash_def)
    have enc: "to_bytes (push_bit 4 hash_val') 32 = Inr (be_bytes 32 (push_bit 4 hash_val'))"
    proof (cases "0 \<le> hash_val' \<and> hash_val' < 2 ^ 252")
      case True
      then show ?thesis by (simp add: to_bytes_shifted)
    next
      case False
      then have "hash_val' < 0 \<or> 2 ^ 252 \<le> hash_val'" by auto
      from sign_hash_encoding_fails [OF this ex1 [unfolded ok1]] returned
      show ?thesis by simp
    qed
    obtain res2 c2 where ex2: "apdu_exchange tr' c1
        (sign_hash_command_2 (be_bytes 32 (push_bit 4 hash_val'))) = (res2, c2)"
      by (cases "apdu_exchange tr' c1
        (sign_hash_command_2 (be_bytes 32 (push_bit 4 hash_val')))")
    with returned ex1 ok1 enc obtain response' where ok2: "res2 = Inr response'"
      by (cases res2) (simp_all add: sign_hash_def)
    from returned ex1 ok1 enc ex2 ok2 have "sign_hash_response response' = Inr signature"
      by (simp add: sign_hash_def)
    from sign_hash_response_signature [OF this] halves [of response']
    have "length response' = SIGNATURE_LENGTH + 1 \<and> unat (response' ! 0) = SIGNATURE_LENGTH \<and>
      signature = [\<Sum>k < 32. uint (response' ! (1 + k)) * 256 ^ (31 - k),
                   \<Sum>k < 32. uint (response' ! (33 + k)) * 256 ^ (31 - k)]"
      by simp
    with ex1 ok1 ex2 ok2 show ?thesis by blast
  qed
  from bad good range whole show ?thesis by blast
qed

theorem sign_hash_response_checked_witness:
  "apdu_exchange (fixed_response_device signature_response_1234) \<lparr>device = (), sent = []\<rparr>
     (sign_hash_command_1 example_path) =
     (Inr signature_response_1234, \<lparr>device = (), sent = [sign_hash_command_1 example_path]\<rparr>) \<and>
   to_bytes (push_bit 4 1) 32 = Inr (replicate 31 0 @ [16]) \<and>
   length signature_response_1234 = SIGNATURE_LENGTH + 1 \<and>
   unat (signature_response_1234 ! 0) = SIGNATURE_LENGTH \<and>
   (\<Sum>k < 32. uint (signature_response_1234 ! (1 + k)) * 256 ^ (31 - k)) = 4660 \<and>
   (\<Sum>k < 32. uint (signature_response_1234 ! (33 + k)) * 256 ^ (31 - k)) = 2 ^ 248 \<and>
   sign_hash (fixed_response_device signature_response_1234) \<lparr>device = (), sent = []\<rparr>
     example_path 1 =
     (Inr [4660, 2 ^ 248],
      \<lparr>device = (), sent = [sign_hash_command_1 example_path,
                              sign_hash_command_2 (replicate 31 0 @ [16])]\<rparr>)"
proof -
  have ex1: "apdu_exchange (fixed_response_device signature_response_1234)
      \<lparr>device = (), sent = []\<rparr> (sign_hash_command_1 example_path) =
      (Inr signature_response_1234, \<lparr>device = (), sent = [sign_hash_command_1 example_path]\<rparr>)"
    by (simp add: fixed_response_exchange)
  have ex2: "apdu_exchange (fixed_response_device signature_response_1234)
      \<lparr>device = (), sent = [sign_hash_command_1 example_path]\<rparr>
      (sign_hash_command_2 (replicate 31 0 @ [16])) =
      (Inr signature_response_1234,
       \<lparr>device = (), sent = [sign_hash_command_1 example_path,
                               sign_hash_command_2 (replicate 31 0 @ [16])]\<rparr>)"
    by (simp add: fixed_response_exchange)
  note run = sign_hash_response_checked [OF ex1 example_shifted ex2,
      THEN conjunct2, THEN conjunct1, rule_format, OF signature_response_1234_valid]
  from run signature_response_1234_r signature_response_1234_s
    signature_response_1234_valid ex1 example_shifted
  show ?thesis by simp
qed

text \<open>
  C2. For a hash \<open>H\<close> that \<open>sign_hash\<close> accepts, \<open>0 \<le> H < 2 ^ 252\<close>, and a first
  exchange that returns, the commands sent are command 1 and then command 2, whose payload
  is the encoding of \<open>H << 4\<close> in 32 bytes, big-endian: it has 32 bytes and reads back as
  \<open>H * 16\<close>. The payload is \<open>be_bytes 32 (push_bit 4 H)\<close>, in which neither the path nor
  the device occurs.
\<close>

theorem sign_hash_payload:
  assumes "0 \<le> hash_val" and "hash_val < 2 ^ 252"
    and "apdu_exchange tr client (sign_hash_command_1 path) = (Inr ack, client1)"
  shows "sent (snd (sign_hash tr client path hash_val)) =
           sent client @ [sign_hash_command_1 path,
                          sign_hash_command_2 (be_bytes 32 (push_bit 4 hash_val))] \<and>
         data (sign_hash_command_2 (be_bytes 32 (push_bit 4 hash_val))) =
           be_bytes 32 (push_bit 4 hash_val) \<and>
         to_bytes (push_bit 4 hash_val) 32 = Inr (be_bytes 32 (push_bit 4 hash_val)) \<and>
         length (be_bytes 32 (push_bit 4 hash_val)) = 32 \<and>
         from_bytes (be_bytes 32 (push_bit 4 hash_val)) = hash_val * 2 ^ 4"
proof -
  have enc: "to_bytes (push_bit 4 hash_val) 32 = Inr (be_bytes 32 (push_bit 4 hash_val))"
    using assms(1,2) by (simp add: to_bytes_shifted)
  have "0 \<le> hash_val * 16" and "hash_val * 16 < 256 ^ 32"
    using assms(1,2) by simp_all
  then have "from_bytes (be_bytes 32 (push_bit 4 hash_val)) = hash_val * 2 ^ 4"
    by (simp add: from_bytes_be_bytes push_bit_eq_mult)
  with enc sent_sign_hash_phase_2 [OF assms(3) enc] show ?thesis
    by (simp add: length_be_bytes sign_hash_command_2_def)
qed

theorem sign_hash_payload_witness:
  "(0::int) \<le> 1 \<and> (1::int) < 2 ^ 252 \<and>
   sent (snd (sign_hash (fixed_response_device example_signature_response)
                \<lparr>device = (), sent = []\<rparr> example_path 1)) =
     [sign_hash_command_1 example_path, sign_hash_command_2 (replicate 31 0 @ [16])] \<and>
   from_bytes (replicate 31 0 @ [16]) = 16"
proof -
  have "be_bytes 32 (push_bit 4 1) = replicate 31 0 @ [16]"
    by code_simp
  with sign_hash_payload [of 1, OF _ _ example_exchange_1] show ?thesis
    by simp
qed

text \<open>
  C10. The encoding of \<open>hash_val << 4\<close> in 32 bytes succeeds for
  \<open>0 \<le> hash_val < 2 ^ 252\<close> and raises the overflow error for every other value. When it
  raises and the first exchange has returned, \<open>sign_hash\<close> fails with the overflow error
  after command 1 was sent; and whenever \<open>sign_hash\<close> fails with the overflow error, the
  hash is out of range and command 1, and nothing else, has been sent.
\<close>

theorem sign_hash_overflow:
  "(0 \<le> hash_val \<and> hash_val < 2 ^ 252 \<longrightarrow>
      to_bytes (push_bit 4 hash_val) 32 = Inr (be_bytes 32 (push_bit 4 hash_val))) \<and>
   (hash_val < 0 \<or> 2 ^ 252 \<le> hash_val \<longrightarrow>
      to_bytes (push_bit 4 hash_val) 32 = Inl OverflowError) \<and>
   (hash_val < 0 \<or> 2 ^ 252 \<le> hash_val \<longrightarrow>
    apdu_exchange tr client (sign_hash_command_1 path) = (Inr ack, client1) \<longrightarrow>
      sign_hash tr client path hash_val = (Inl OverflowError, client1) \<and>
      sent client1 = sent client @ [sign_hash_command_1 path]) \<and>
   (fst (sign_hash tr client path hash_val) = Inl OverflowError \<longrightarrow>
      (hash_val < 0 \<or> 2 ^ 252 \<le> hash_val) \<and>
      sent (snd (sign_hash tr client path hash_val)) = sent client @ [sign_hash_command_1 path])"
proof -
  have fits: "to_bytes (push_bit 4 hash_val) 32 = Inr (be_bytes 32 (push_bit 4 hash_val))"
    if "0 \<le> hash_val \<and> hash_val < 2 ^ 252"
    using that by (simp add: to_bytes_shifted)
  have over: "to_bytes (push_bit 4 hash_val) 32 = Inl OverflowError"
    if "hash_val < 0 \<or> 2 ^ 252 \<le> hash_val"
    using that by (auto simp: to_bytes_shifted)
  have after: "sign_hash tr client path hash_val = (Inl OverflowError, client1) \<and>
      sent client1 = sent client @ [sign_hash_command_1 path]"
    if "hash_val < 0 \<or> 2 ^ 252 \<le> hash_val"
      and "apdu_exchange tr client (sign_hash_command_1 path) = (Inr ack, client1)"
    using sign_hash_encoding_fails [OF that] sent_apdu_exchange [OF that(2)]
    by simp
  have only: "(hash_val < 0 \<or> 2 ^ 252 \<le> hash_val) \<and>
      sent (snd (sign_hash tr client path hash_val)) = sent client @ [sign_hash_command_1 path]"
    if failed: "fst (sign_hash tr client path hash_val) = Inl OverflowError"
  proof -
    obtain res1 c1 where
      ex1: "apdu_exchange tr client (sign_hash_command_1 path) = (res1, c1)"
      by (cases "apdu_exchange tr client (sign_hash_command_1 path)")
    show ?thesis
    proof (cases res1)
      case (Inl e)
      with ex1 failed have "e = OverflowError" by (simp add: sign_hash_def)
      with ex1 Inl show ?thesis by (auto dest: apdu_exchange_error)
    next
      case (Inr ack1)
      note ok1 = ex1 [unfolded Inr]
      show ?thesis
      proof (cases "0 \<le> hash_val \<and> hash_val < 2 ^ 252")
        case True
        note enc = fits [OF True]
        obtain res2 c2 where ex2: "apdu_exchange tr c1
            (sign_hash_command_2 (be_bytes 32 (push_bit 4 hash_val))) = (res2, c2)"
          by (cases "apdu_exchange tr c1
            (sign_hash_command_2 (be_bytes 32 (push_bit 4 hash_val)))")
        show ?thesis
        proof (cases res2)
          case (Inl e)
          with ok1 enc ex2 failed have "e = OverflowError" by (simp add: sign_hash_def)
          with ex2 Inl show ?thesis by (auto dest: apdu_exchange_error)
        next
          case (Inr response)
          with ok1 enc ex2 failed have "sign_hash_response response = Inl OverflowError"
            by (simp add: sign_hash_def)
          then show ?thesis by (auto dest: sign_hash_response_error)
        qed
      next
        case False
        then have "hash_val < 0 \<or> 2 ^ 252 \<le> hash_val" by auto
        with sign_hash_encoding_fails [OF this ok1] sent_apdu_exchange [OF ok1]
        show ?thesis by simp
      qed
    qed
  qed
  from fits over after only show ?thesis by blast
qed

theorem sign_hash_overflow_witness:
  "((2 ^ 252 :: int) < 0 \<or> (2 ^ 252 :: int) \<le> 2 ^ 252) \<and>
   apdu_exchange (fixed_response_device []) \<lparr>device = (), sent = []\<rparr>
     (sign_hash_command_1 example_path) =
     (Inr [], \<lparr>device = (), sent = [sign_hash_command_1 example_path]\<rparr>) \<and>
   to_bytes (push_bit 4 (2 ^ 252)) 32 = Inl OverflowError \<and>
   sign_hash (fixed_response_device []) \<lparr>device = (), sent = []\<rparr> example_path (2 ^ 252) =
     (Inl OverflowError, \<lparr>device = (), sent = [sign_hash_command_1 example_path]\<rparr>)"
proof -
  have big: "(2 ^ 252 :: int) < 0 \<or> (2 ^ 252 :: int) \<le> 2 ^ 252" by simp
  note run = sign_hash_overflow [of "2 ^ 252" "fixed_response_device []"
      "\<lparr>device = (), sent = []\<rparr>" example_path "[]"
      "\<lparr>device = (), sent = [sign_hash_command_1 example_path]\<rparr>"]
  from run big have "to_bytes (push_bit 4 (2 ^ 252)) 32 = Inl OverflowError"
    by blast
  moreover from run big example_overflow_exchange
  have "sign_hash (fixed_response_device []) \<lparr>device = (), sent = []\<rparr> example_path (2 ^ 252) =
     (Inl OverflowError, \<lparr>device = (), sent = [sign_hash_command_1 example_path]\<rparr>)"
    by blast
  ultimately show ?thesis using big example_overflow_exchange by blast
qed

text \<open>
  C5. When the exchange of \<open>get_public_key\<close> returns a response whose length is not
  \<open>PUBLIC_KEY_LENGTH\<close>, the result is the unexpected-response-length error and no key;
  when the length is \<open>PUBLIC_KEY_LENGTH\<close>, the result is the big-endian integer of the
  slice from offset 1 to offset 33 of the response, an integer below \<open>2 ^ 256\<close>. When
  \<open>PUBLIC_KEY_LENGTH\<close> is at least 33 the slice has 32 bytes and byte \<open>1 + k\<close> of the
  response has the weight \<open>256 ^ (31 - k)\<close> in the key. A key that \<open>get_public_key\<close>
  returns, in any run, is read in this way from the response that the transport gave, and
  that response has the expected length.
\<close>

theorem get_public_key_response_checked:
  assumes "apdu_exchange tr client (get_public_key_command path device_confirmation) =
           (Inr response, client1)"
  shows "(length response \<noteq> PUBLIC_KEY_LENGTH \<longrightarrow>
            get_public_key tr PUBLIC_KEY_LENGTH client path device_confirmation =
              (Inl (UnexpectedResponseLength PUBLIC_KEY_LENGTH
                      (length (derivation_path_to_bytes path))), client1)) \<and>
         (length response = PUBLIC_KEY_LENGTH \<longrightarrow>
            get_public_key tr PUBLIC_KEY_LENGTH client path device_confirmation =
              (Inr (from_bytes (py_slice response 1 33)), client1) \<and>
            from_bytes (py_slice response 1 33) =
              (\<Sum>k < min 32 (PUBLIC_KEY_LENGTH - 1).
                 uint (response ! (1 + k)) * 256 ^ (min 32 (PUBLIC_KEY_LENGTH - 1) - 1 - k)) \<and>
            0 \<le> from_bytes (py_slice response 1 33) \<and>
            from_bytes (py_slice response 1 33) < 2 ^ 256 \<and>
            (33 \<le> PUBLIC_KEY_LENGTH \<longrightarrow>
               get_public_key tr PUBLIC_KEY_LENGTH client path device_confirmation =
                 (Inr (\<Sum>k < 32. uint (response ! (1 + k)) * 256 ^ (31 - k)), client1) \<and>
               py_slice response 1 33 = take 32 (drop 1 response) \<and>
               length (py_slice response 1 33) = 32)) \<and>
         (fst (get_public_key tr' PUBLIC_KEY_LENGTH' client' path' device_confirmation') = Inr key \<longrightarrow>
            (\<exists>response' client1'.
               apdu_exchange tr' client' (get_public_key_command path' device_confirmation') =
                 (Inr response', client1') \<and>
               length response' = PUBLIC_KEY_LENGTH' \<and>
               key = (\<Sum>k < min 32 (PUBLIC_KEY_LENGTH' - 1).
                        uint (response' ! (1 + k)) *
                        256 ^ (min 32 (PUBLIC_KEY_LENGTH' - 1) - 1 - k))))"
proof -
  have cut: "from_bytes (py_slice bs 1 33) =
      (\<Sum>k < min 32 (length bs - 1). uint (bs ! (1 + k)) * 256 ^ (min 32 (length bs - 1) - 1 - k))"
    for bs :: bytes
    using from_bytes_slice_cut [of bs 1 33] by simp
  have returned: "\<exists>response' client1'.
      apdu_exchange tr' client' (get_public_key_command path' device_confirmation') =
        (Inr response', client1') \<and>
      length response' = PUBLIC_KEY_LENGTH' \<and>
      key = (\<Sum>k < min 32 (PUBLIC_KEY_LENGTH' - 1).
               uint (response' ! (1 + k)) * 256 ^ (min 32 (PUBLIC_KEY_LENGTH' - 1) - 1 - k))"
    if key: "fst (get_public_key tr' PUBLIC_KEY_LENGTH' client' path' device_confirmation') = Inr key"
  proof -
    obtain res c1 where ex: "apdu_exchange tr' client'
        (get_public_key_command path' device_confirmation') = (res, c1)"
      by (cases "apdu_exchange tr' client' (get_public_key_command path' device_confirmation')")
    with key obtain response' where ok: "res = Inr response'"
      by (cases res) (simp_all add: get_public_key_def)
    from key ex ok have "length response' = PUBLIC_KEY_LENGTH' \<and>
        key = from_bytes (py_slice response' 1 33)"
      by (simp add: get_public_key_def split: if_splits)
    with cut [of response'] ex ok show ?thesis by auto
  qed
  have range: "0 \<le> from_bytes (py_slice response 1 33) \<and>
      from_bytes (py_slice response 1 33) < 2 ^ 256"
    using from_bytes_slice_range [of 33 1 response] by simp
  have slice: "py_slice response 1 33 = take 32 (drop 1 response)"
    by (simp add: py_slice_def)
  have full: "length (py_slice response 1 33) = 32 \<and>
      from_bytes (py_slice response 1 33) =
        (\<Sum>k < 32. uint (response ! (1 + k)) * 256 ^ (31 - k))"
    if "length response = PUBLIC_KEY_LENGTH" and "33 \<le> PUBLIC_KEY_LENGTH"
  proof -
    from that have "1 + 32 \<le> length response" by simp
    from from_bytes_slice_positional [OF this] that show ?thesis
      by (simp add: py_slice_def)
  qed
  have good: "get_public_key tr PUBLIC_KEY_LENGTH client path device_confirmation =
      (Inr (from_bytes (py_slice response 1 33)), client1)"
    if "length response = PUBLIC_KEY_LENGTH"
    using that assms by (simp add: get_public_key_def)
  have bad: "get_public_key tr PUBLIC_KEY_LENGTH client path device_confirmation =
      (Inl (UnexpectedResponseLength PUBLIC_KEY_LENGTH
              (length (derivation_path_to_bytes path))), client1)"
    if "length response \<noteq> PUBLIC_KEY_LENGTH"
    using that assms by (simp add: get_public_key_def)
  have pos: "from_bytes (py_slice response 1 33) =
      (\<Sum>k < min 32 (PUBLIC_KEY_LENGTH - 1).
         uint (response ! (1 + k)) * 256 ^ (min 32 (PUBLIC_KEY_LENGTH - 1) - 1 - k))"
    if "length response = PUBLIC_KEY_LENGTH"
    using cut [of response] that by simp
  from bad good pos range slice full returned show ?thesis
    by (intro conjI impI) simp_all
qed

theorem get_public_key_response_checked_witness:
  "apdu_exchange (fixed_response_device public_key_response_1234) \<lparr>device = (), sent = []\<rparr>
     (get_public_key_command example_path False) =
     (Inr public_key_response_1234,
      \<lparr>device = (), sent = [get_public_key_command example_path False]\<rparr>) \<and>
   length public_key_response_1234 = 65 \<and>
   (\<Sum>k < 32. uint (public_key_response_1234 ! (1 + k)) * 256 ^ (31 - k)) = 4660 \<and>
   get_public_key (fixed_response_device public_key_response_1234) 65
     \<lparr>device = (), sent = []\<rparr> example_path False =
     (Inr 4660, \<lparr>device = (), sent = [get_public_key_command example_path False]\<rparr>) \<and>
   get_public_key (fixed_response_device public_key_response_1234) 33
     \<lparr>device = (), sent = []\<rparr> example_path False =
     (Inl (UnexpectedResponseLength 33 24),
      \<lparr>device = (), sent = [get_public_key_command example_path False]\<rparr>)"
proof -
  have ex: "apdu_exchange (fixed_response_device public_key_response_1234)
      \<lparr>device = (), sent = []\<rparr> (get_public_key_command example_path False) =
      (Inr public_key_response_1234,
       \<lparr>device = (), sent = [get_public_key_command example_path False]\<rparr>)"
    by (simp add: fixed_response_exchange)
  have wide: "(33::nat) \<le> 65" by simp
  note good = get_public_key_response_checked [OF ex, where PUBLIC_KEY_LENGTH = 65,
      THEN conjunct2, THEN conjunct1, rule_format, OF public_key_response_1234_length]
  note full = good [THEN conjunct2, THEN conjunct2, THEN conjunct2, THEN conjunct2,
      rule_format, OF wide]
  have "length public_key_response_1234 \<noteq> 33"
    by (simp add: public_key_response_1234_length)
  note bad = get_public_key_response_checked [OF ex, where PUBLIC_KEY_LENGTH = 33,
      THEN conjunct1, rule_format, OF this]
  have "length (derivation_path_to_bytes example_path) = 24"
    by (simp add: length_derivation_path_to_bytes example_path_def)
  with good full bad public_key_response_1234_key ex public_key_response_1234_length
  show ?thesis by simp
qed

text \<open>
  C9, as amended. The construction of the signer creates the app, which opens the device,
  and then parses the derivation path string. When parsing fails, the construction fails:
  with the error of the parser once the device is open, with the error of the device when
  opening it fails, and with some error in any case, so no signer is built. A signer that
  the construction returns holds the opened device, the chain and the parsed path, which
  has 6 elements and starts with the purpose.
\<close>

theorem LedgerSigner_init_fails_fast:
  assumes "parse_derivation_path_str derivation_path_str = Inl e"
  shows "LedgerSigner_init (Inr d) derivation_path_str chain = Inl e \<and>
         LedgerSigner_init (Inl sw) derivation_path_str chain = Inl (DeviceCommunicationError sw) \<and>
         (\<exists>e'. LedgerSigner_init opened derivation_path_str chain = Inl e') \<and>
         (LedgerSigner_init opened' derivation_path_str' chain' = Inr signer \<longrightarrow>
            (\<exists>d'. opened' = Inr d' \<and> app signer = \<lparr>device = d', sent = []\<rparr>) \<and>
            chain_id signer = chain' \<and>
            parse_derivation_path_str derivation_path_str' = Inr (derivation_path signer) \<and>
            length (derivation_path signer) = EIP_2645_PATH_LENGTH \<and>
            uint (derivation_path signer ! 0) = EIP_2645_PURPOSE)"
proof -
  have valid: "length path = EIP_2645_PATH_LENGTH \<and> uint (path ! 0) = EIP_2645_PURPOSE"
    if "parse_derivation_path_str s = Inr path" for s path
    using that
    by (auto simp: parse_derivation_path_str_def parse_nonempty_def check_path_elements_def
        split: if_splits sum.splits)
  have built: "(\<exists>d'. opened' = Inr d' \<and> app signer = \<lparr>device = d', sent = []\<rparr>) \<and>
      chain_id signer = chain' \<and>
      parse_derivation_path_str derivation_path_str' = Inr (derivation_path signer)"
    if "LedgerSigner_init opened' derivation_path_str' chain' = Inr signer"
    using that
    by (auto simp: LedgerSigner_init_def LedgerStarknetApp_init_def split: sum.splits)
  have "\<exists>e'. LedgerSigner_init opened derivation_path_str chain = Inl e'"
    using assms by (simp add: LedgerSigner_init_def split: sum.splits)
  moreover have "LedgerSigner_init (Inr d) derivation_path_str chain = Inl e"
    using assms by (simp add: LedgerSigner_init_def LedgerStarknetApp_init_def)
  moreover have "LedgerSigner_init (Inl sw) derivation_path_str chain =
      Inl (DeviceCommunicationError sw)"
    by (simp add: LedgerSigner_init_def LedgerStarknetApp_init_def)
  ultimately show ?thesis
    using built valid by blast
qed

theorem LedgerSigner_init_fails_fast_witness:
  "parse_derivation_path_str [] = Inl EmptyDerivationPath \<and>
   LedgerSigner_init (Inr ()) [] () = (Inl EmptyDerivationPath :: error + (unit, unit) LedgerSigner) \<and>
   LedgerSigner_init (Inl 7) [] () =
     (Inl (DeviceCommunicationError 7) :: error + (unit, unit) LedgerSigner) \<and>
   parse_derivation_path_str ''m/2645'/1195502025'/1470455285'/0'/0'/0/0'' = Inl (NotLevelLong 6) \<and>
   LedgerSigner_init (Inr ()) ''m/2645'/1195502025'/1470455285'/0'/0'/0/0'' () =
     (Inl (NotLevelLong 6) :: error + (unit, unit) LedgerSigner) \<and>
   parse_derivation_path_str ''m/1234'/1195502025'/1470455285'/0'/0'/0'' = Inl NotPrefixed \<and>
   LedgerSigner_init (Inr ()) ''m/1234'/1195502025'/1470455285'/0'/0'/0'' () =
     (Inl NotPrefixed :: error + (unit, unit) LedgerSigner)"
proof -
  have empty: "parse_derivation_path_str [] = Inl EmptyDerivationPath"
    by (simp add: parse_derivation_path_str_def)
  have long: "parse_derivation_path_str ''m/2645'/1195502025'/1470455285'/0'/0'/0/0'' =
      Inl (NotLevelLong 6)"
    by code_simp
  note other = other_purpose_result
  from LedgerSigner_init_fails_fast [OF empty, where d = "()" and chain = "()", THEN conjunct1]
    LedgerSigner_init_fails_fast [OF empty, where d = "()" and chain = "()" and sw = 7,
      THEN conjunct2, THEN conjunct1]
    LedgerSigner_init_fails_fast [OF long, where d = "()" and chain = "()", THEN conjunct1]
    LedgerSigner_init_fails_fast [OF other, where d = "()" and chain = "()", THEN conjunct1]
    empty long other
  show ?thesis by simp
qed

theorem LedgerSigner_init_fails_fast_counterexample:
  "parse_derivation_path_str [] = Inl EmptyDerivationPath \<and>
   LedgerSigner_init (Inl 0) [] () =
     (Inl (DeviceCommunicationError 0) :: error + (unit, unit) LedgerSigner) \<and>
   LedgerSigner_init (Inl 0) [] () \<noteq>
     (Inl EmptyDerivationPath :: error + (unit, unit) LedgerSigner)"
  by (simp add: parse_derivation_path_str_def LedgerSigner_init_def LedgerStarknetApp_init_def)

end
